theory Spec2Isabelle
  imports Main
begin

section \<open>The document\<close>

text \<open>
  \<^verbatim>\<open>static/script.js\<close> works on the page it is loaded into. The page is a tree of
  elements; each element has a local name, an id, the token list behind its
  \<^verbatim>\<open>classList\<close> (in the order of the tokens) and its children. A reference to an
  element, as \<^verbatim>\<open>getElementById\<close> and \<^verbatim>\<open>querySelector\<close> return it and as an event
  carries it in \<^verbatim>\<open>target\<close>, is the address of the element in the tree: the child
  indices on the way down from the root. The script never changes the shape of the tree,
  so an address keeps denoting the same element.
\<close>

datatype element =
  Element (localName: string) (ident: string) (classList: "string list")
    (children: "element list")

type_synonym ref = "nat list"

fun element_at :: "element \<Rightarrow> ref \<Rightarrow> element option" where
  "element_at e [] = Some e"
| "element_at (Element l i c ch) (k # p) =
     (if k < length ch then element_at (ch ! k) p else None)"

text \<open>Replacing the token list of the element at an address; the rest of the tree stays.\<close>

fun modify_classList ::
  "(string list \<Rightarrow> string list) \<Rightarrow> ref \<Rightarrow> element \<Rightarrow> element" where
  "modify_classList f [] (Element l i c ch) = Element l i (f c) ch"
| "modify_classList f (k # p) (Element l i c ch) =
     (if k < length ch
      then Element l i c (ch[k := modify_classList f p (ch ! k)])
      else Element l i c ch)"

text \<open>
  \<^verbatim>\<open>getElementById\<close> and \<^verbatim>\<open>querySelector\<close> return the first element in tree order
  (an element before its children, the children from left to right) that matches, or
  \<^verbatim>\<open>null\<close>.
\<close>

fun first_match :: "(element \<Rightarrow> bool) \<Rightarrow> element \<Rightarrow> ref option"
  and first_among :: "(element \<Rightarrow> bool) \<Rightarrow> element list \<Rightarrow> nat \<Rightarrow> ref option" where
  "first_match P (Element l i c ch) =
     (if P (Element l i c ch) then Some [] else first_among P ch 0)"
| "first_among P [] k = None"
| "first_among P (e # es) k =
     (case first_match P e of
        Some p \<Rightarrow> Some (k # p)
      | None \<Rightarrow> first_among P es (Suc k))"

definition getElementById :: "element \<Rightarrow> string \<Rightarrow> ref option" where
  "getElementById doc i = first_match (\<lambda>e. ident e = i) doc"

definition querySelector :: "element \<Rightarrow> string \<Rightarrow> ref option" where
  \<comment> \<open>only for a type selector, which is what the script passes\<close>
  "querySelector doc name = first_match (\<lambda>e. localName e = name) doc"

text \<open>
  \<^verbatim>\<open>a.contains(b)\<close>: \<^verbatim>\<open>b\<close> is \<^verbatim>\<open>a\<close> itself or one of its descendants, so the
  address of \<^verbatim>\<open>a\<close> is an initial part of the address of \<^verbatim>\<open>b\<close>.
\<close>

fun contains :: "ref \<Rightarrow> ref \<Rightarrow> bool" where
  "contains [] b = True"
| "contains (i # a) [] = False"
| "contains (i # a) (j # b) = (i = j \<and> contains a b)"

section \<open>The token list of an element\<close>

datatype error = TypeError | SyntaxError | InvalidCharacterError

datatype jsval = Undefined | Boolean bool

definition ascii_whitespace :: "char \<Rightarrow> bool" where
  "ascii_whitespace c = (of_char c \<in> {9, 10, 12, 13, 32 :: nat})"

text \<open>Both \<^verbatim>\<open>toggle\<close> and \<^verbatim>\<open>remove\<close> refuse an empty token and one with white space.\<close>

definition validate_token :: "string \<Rightarrow> error + unit" where
  "validate_token t =
     (if t = [] then Inl SyntaxError
      else if list_ex ascii_whitespace t then Inl InvalidCharacterError
      else Inr ())"

definition classList_contains :: "string \<Rightarrow> ref \<Rightarrow> element \<Rightarrow> bool" where
  "classList_contains t r doc =
     (case element_at doc r of None \<Rightarrow> False | Some e \<Rightarrow> t \<in> set (classList e))"

definition toggle_token :: "string \<Rightarrow> string list \<Rightarrow> string list" where
  "toggle_token t ts = (if t \<in> set ts then removeAll t ts else ts @ [t])"

text \<open>
  \<^verbatim>\<open>classList.toggle(t)\<close> removes the token when it is there and appends it when it is
  not, and returns whether the token is there afterwards.
\<close>

definition classList_toggle :: "string \<Rightarrow> ref \<Rightarrow> element \<Rightarrow> error + (jsval \<times> element)" where
  "classList_toggle t r doc =
     (case validate_token t of
        Inl err \<Rightarrow> Inl err
      | Inr _ \<Rightarrow>
          Inr (Boolean (\<not> classList_contains t r doc),
               modify_classList (toggle_token t) r doc))"

definition classList_remove :: "string \<Rightarrow> ref \<Rightarrow> element \<Rightarrow> error + (jsval \<times> element)" where
  "classList_remove t r doc =
     (case validate_token t of
        Inl err \<Rightarrow> Inl err
      | Inr _ \<Rightarrow> Inr (Undefined, modify_classList (removeAll t) r doc))"

section \<open>The script\<close>

text \<open>
  The two constants of the script, each an element or \<^verbatim>\<open>null\<close>:
  \<^verbatim>\<open>
  const menuIcon = document.getElementById('menu-icon');
  const nav = document.querySelector('nav');
  \<close>
\<close>

record env =
  menuIcon :: "ref option"
  nav :: "ref option"

definition lookups :: "element \<Rightarrow> env" where
  "lookups doc =
     \<lparr>menuIcon = getElementById doc ''menu-icon'', nav = querySelector doc ''nav''\<rparr>"

text \<open>
  \<^verbatim>\<open>
  menuIcon.addEventListener('click', () => {
      nav.classList.toggle('active');
  });
  \<close>
  The listener reads \<^verbatim>\<open>nav.classList\<close>, which throws a TypeError when \<^verbatim>\<open>nav\<close> is
  \<^verbatim>\<open>null\<close>; it drops what \<^verbatim>\<open>toggle\<close> returns and, having a block body with no
  \<^verbatim>\<open>return\<close>, returns \<^verbatim>\<open>undefined\<close>.
\<close>

definition onIconActivate :: "env \<Rightarrow> element \<Rightarrow> error + (jsval \<times> element)" where
  "onIconActivate env doc =
     (case nav env of
        None \<Rightarrow> Inl TypeError
      | Some n \<Rightarrow>
          (case classList_toggle ''active'' n doc of
             Inl err \<Rightarrow> Inl err
           | Inr (_, doc') \<Rightarrow> Inr (Undefined, doc')))"

text \<open>
  \<^verbatim>\<open>
  document.addEventListener('click', (e) => {
      if (!nav.contains(e.target) && !menuIcon.contains(e.target)) {
          nav.classList.remove('active');
      }
  });
  \<close>
  \<^verbatim>\<open>&&\<close> evaluates its right operand only when the left one is true.
\<close>

record event =
  target :: ref

definition onDocumentActivate ::
  "env \<Rightarrow> event \<Rightarrow> element \<Rightarrow> error + (jsval \<times> element)" where
  "onDocumentActivate env e doc =
     (case nav env of
        None \<Rightarrow> Inl TypeError
      | Some n \<Rightarrow>
          if \<not> contains n (target e) then
            (case menuIcon env of
               None \<Rightarrow> Inl TypeError
             | Some m \<Rightarrow>
                 if \<not> contains m (target e) then
                   (case classList_remove ''active'' n doc of
                      Inl err \<Rightarrow> Inl err
                    | Inr (_, doc') \<Rightarrow> Inr (Undefined, doc'))
                 else Inr (Undefined, doc))
          else Inr (Undefined, doc))"

text \<open>
  Loading the script: the two lookups, then the two registrations.
  \<^verbatim>\<open>menuIcon.addEventListener\<close> throws a TypeError when \<^verbatim>\<open>menuIcon\<close> is \<^verbatim>\<open>null\<close>,
  which ends the script before any listener is registered.
\<close>

definition load :: "element \<Rightarrow> error + env" where
  "load doc =
     (let env = lookups doc
      in case menuIcon env of None \<Rightarrow> Inl TypeError | Some _ \<Rightarrow> Inr env)"

text \<open>
  A click on the element \<open>t\<close>. The event travels from \<open>t\<close> up to the document, so the
  listener on the icon runs when the icon is \<open>t\<close> or an ancestor of it, and the listener
  on the document runs after it. An exception that a listener throws is reported by the
  browser and does not stop the dispatch; a listener of this script throws before it has
  changed anything. With \<^verbatim>\<open>menuIcon\<close> \<^verbatim>\<open>null\<close> the script registered no listener.
\<close>

definition after_listener :: "error + (jsval \<times> element) \<Rightarrow> element \<Rightarrow> element" where
  "after_listener r doc = (case r of Inl _ \<Rightarrow> doc | Inr (_, doc') \<Rightarrow> doc')"

definition click :: "env \<Rightarrow> ref \<Rightarrow> element \<Rightarrow> element" where
  "click env t doc =
     (case menuIcon env of
        None \<Rightarrow> doc
      | Some m \<Rightarrow>
          (let doc1 = (if contains m t then after_listener (onIconActivate env doc) doc
                       else doc)
           in after_listener (onDocumentActivate env \<lparr>target = t\<rparr> doc1) doc1))"

fun clicks :: "env \<Rightarrow> ref list \<Rightarrow> element \<Rightarrow> element" where
  "clicks env [] doc = doc"
| "clicks env (t # ts) doc = clicks env ts (click env t doc)"

text \<open>The marker: the token \<^verbatim>\<open>active\<close> in the token list of the navigation element.\<close>

definition marker :: "env \<Rightarrow> element \<Rightarrow> bool" where
  "marker env doc =
     (case nav env of None \<Rightarrow> False | Some n \<Rightarrow> classList_contains ''active'' n doc)"

text \<open>
  Whether a click on \<open>t\<close> is inside the navigation element, and whether it is inside
  the icon element.
\<close>

definition in_nav :: "env \<Rightarrow> ref \<Rightarrow> bool" where
  "in_nav env t = (case nav env of None \<Rightarrow> False | Some n \<Rightarrow> contains n t)"

definition in_icon :: "env \<Rightarrow> ref \<Rightarrow> bool" where
  "in_icon env t = (case menuIcon env of None \<Rightarrow> False | Some m \<Rightarrow> contains m t)"

text \<open>
  Both constants of the script are elements of the page; this is what a successful load
  leaves behind when the page has a \<^verbatim>\<open>nav\<close> element.
\<close>

definition resolved :: "env \<Rightarrow> element \<Rightarrow> bool" where
  "resolved env doc =
     (case menuIcon env of
        None \<Rightarrow> False
      | Some m \<Rightarrow>
          (case nav env of
             None \<Rightarrow> False
           | Some n \<Rightarrow> element_at doc m \<noteq> None \<and> element_at doc n \<noteq> None))"

text \<open>
  What an element is by itself, its children apart: local name, id, token list and the
  number of its children. \<open>own_but_marker\<close> leaves the token \<^verbatim>\<open>active\<close> out.
\<close>

definition own :: "element \<Rightarrow> string \<times> string \<times> string list \<times> nat" where
  "own e = (localName e, ident e, classList e, length (children e))"

definition own_but_marker :: "element \<Rightarrow> string \<times> string \<times> string list \<times> nat" where
  "own_but_marker e =
     (localName e, ident e, removeAll ''active'' (classList e), length (children e))"

text \<open>The icon listener alone, run \<open>N\<close> times in a row.\<close>

fun icon_activations :: "env \<Rightarrow> nat \<Rightarrow> element \<Rightarrow> error + element" where
  "icon_activations env 0 doc = Inr doc"
| "icon_activations env (Suc k) doc =
     (case onIconActivate env doc of
        Inl err \<Rightarrow> Inl err
      | Inr (_, doc') \<Rightarrow> icon_activations env k doc')"

text \<open>The marker after a listener has run, when it has not thrown.\<close>

definition marker_after :: "env \<Rightarrow> error + (jsval \<times> element) \<Rightarrow> bool option" where
  "marker_after env r =
     (case r of Inl _ \<Rightarrow> None | Inr (_, doc') \<Rightarrow> Some (marker env doc'))"

section \<open>The state machine of the specification\<close>

text \<open>
  The specification describes the menu as a machine with two states, OPEN (marker
  present) and CLOSED (marker absent), that starts CLOSED. An icon activation toggles
  the state, an outside activation closes the menu, and a click that is neither (inside
  the navigation element, not through the icon) has no transition.
\<close>

datatype menu_state = CLOSED | OPEN

datatype activation = IconActivation | OutsideActivation | InsideActivation

fun spec_transition :: "menu_state \<Rightarrow> activation \<Rightarrow> menu_state" where
  "spec_transition CLOSED IconActivation = OPEN"
| "spec_transition OPEN IconActivation = CLOSED"
| "spec_transition OPEN OutsideActivation = CLOSED"
| "spec_transition CLOSED OutsideActivation = CLOSED"
| "spec_transition s InsideActivation = s"

definition spec_machine :: "activation list \<Rightarrow> menu_state" where
  "spec_machine as = foldl spec_transition CLOSED as"

definition state_of :: "env \<Rightarrow> element \<Rightarrow> menu_state" where
  "state_of env doc = (if marker env doc then OPEN else CLOSED)"

text \<open>
  The kind of a click: through the icon (the icon listener runs), outside both elements,
  or neither.
\<close>

definition activation_of :: "env \<Rightarrow> ref \<Rightarrow> activation" where
  "activation_of env t =
     (if in_icon env t then IconActivation
      else if in_nav env t then InsideActivation
      else OutsideActivation)"

text \<open>
  The invariant in the words of the specification: ``the menu was last opened by an icon
  click and not yet dismissed by an outside click''. The activation \<open>k\<close> opened the menu
  when it is an icon activation that found the menu CLOSED; it is the last one that did
  when no later one opened the menu; and the menu has not been dismissed since when no
  later activation is an outside one.
\<close>

definition opened_at :: "activation list \<Rightarrow> nat \<Rightarrow> bool" where
  "opened_at as k = (as ! k = IconActivation \<and> spec_machine (take k as) = CLOSED)"

definition opened_and_not_dismissed :: "activation list \<Rightarrow> bool" where
  "opened_and_not_dismissed as =
     (\<exists>k \<in> {0..<length as}.
        opened_at as k \<and>
        (\<forall>j \<in> {Suc k..<length as}. \<not> opened_at as j) \<and>
        OutsideActivation \<notin> set (drop (Suc k) as))"

text \<open>
  The same with both ways of closing the menu: no later activation is an outside one or
  an icon one.
\<close>

definition opened_and_not_closed :: "activation list \<Rightarrow> bool" where
  "opened_and_not_closed as =
     (\<exists>k \<in> {0..<length as}.
        opened_at as k \<and>
        (\<forall>j \<in> {Suc k..<length as}. \<not> opened_at as j) \<and>
        OutsideActivation \<notin> set (drop (Suc k) as) \<and>
        IconActivation \<notin> set (drop (Suc k) as))"

section \<open>Pages to run the script on\<close>

text \<open>
  A page with the icon, the navigation element with a link in it, and a main part:
  the icon is \<open>[0]\<close>, the navigation element \<open>[1]\<close>, the link \<open>[1, 0]\<close> and the main
  part \<open>[2]\<close>.
\<close>

definition page :: element where
  "page =
     Element ''body'' '''' []
       [Element ''div'' ''menu-icon'' [''icon''] [],
        Element ''nav'' '''' [''menu''] [Element ''a'' '''' [] []],
        Element ''main'' '''' [] []]"

definition page_env :: env where
  "page_env = \<lparr>menuIcon = Some [0], nav = Some [1]\<rparr>"

text \<open>The same page with the menu open.\<close>

definition page_open :: element where
  "page_open =
     Element ''body'' '''' []
       [Element ''div'' ''menu-icon'' [''icon''] [],
        Element ''nav'' '''' [''menu'', ''active''] [Element ''a'' '''' [] []],
        Element ''main'' '''' [] []]"

text \<open>A page whose navigation element is itself the element with the id of the icon.\<close>

definition page_one_element :: element where
  "page_one_element =
     Element ''body'' '''' [] [Element ''nav'' ''menu-icon'' [''menu''] []]"

definition page_one_element_open :: element where
  "page_one_element_open =
     Element ''body'' '''' [] [Element ''nav'' ''menu-icon'' [''menu'', ''active''] []]"

definition page_one_element_env :: env where
  "page_one_element_env = \<lparr>menuIcon = Some [0], nav = Some [0]\<rparr>"

text \<open>A page with no \<^verbatim>\<open>nav\<close> element, and one with no element of the id of the icon.\<close>

definition page_no_nav :: element where
  "page_no_nav = Element ''body'' '''' [] [Element ''div'' ''menu-icon'' [] []]"

definition page_no_nav_env :: env where
  "page_no_nav_env = \<lparr>menuIcon = Some [0], nav = None\<rparr>"

definition page_no_icon :: element where
  "page_no_icon = Element ''body'' '''' [] [Element ''nav'' '''' [] []]"

section \<open>Facts about the document and the listeners\<close>

lemma validate_active: "validate_token ''active'' = Inr ()"
  by (simp add: validate_token_def ascii_whitespace_def)

lemma element_at_modify_same:
  "element_at (modify_classList f n d) n =
     map_option (\<lambda>e. Element (localName e) (ident e) (f (classList e)) (children e))
       (element_at d n)"
proof (induction n arbitrary: d)
  case Nil
  show ?case by (cases d) simp
next
  case (Cons k n)
  show ?case by (cases d) (simp add: Cons.IH)
qed

lemma own_modify:
  "map_option own (element_at (modify_classList f n d) p) =
     map_option (\<lambda>(l, i, c, k). (l, i, if p = n then f c else c, k))
       (map_option own (element_at d p))"
proof (induction p arbitrary: n d)
  case Nil
  show ?case by (cases d; cases n) (simp_all add: own_def)
next
  case (Cons k p)
  show ?case
  proof (cases d)
    case (Element l i c ch)
    show ?thesis
    proof (cases n)
      case Nil
      then show ?thesis using Element by (simp add: option.map_comp comp_def split_def option.map_ident)
    next
      case (Cons j n')
      then show ?thesis using Element Cons.IH [of n' "ch ! k"]
        by (auto simp add: nth_list_update option.map_comp comp_def split_def option.map_ident)
    qed
  qed
qed

lemma element_at_modify_None:
  "element_at (modify_classList f n d) p = None \<longleftrightarrow> element_at d p = None"
  using own_modify [of f n d p]
  by (cases "element_at (modify_classList f n d) p"; cases "element_at d p") simp_all

lemma classList_contains_modify:
  "classList_contains t n (modify_classList f n d) =
     (case element_at d n of None \<Rightarrow> False | Some e \<Rightarrow> t \<in> set (f (classList e)))"
  by (simp add: classList_contains_def element_at_modify_same split: option.splits)

lemma onIconActivate_result:
  "nav env = Some n \<Longrightarrow>
   onIconActivate env d = Inr (Undefined, modify_classList (toggle_token ''active'') n d)"
  by (simp add: onIconActivate_def classList_toggle_def validate_active)

lemma onDocumentActivate_result:
  "nav env = Some n \<Longrightarrow> menuIcon env = Some m \<Longrightarrow>
   onDocumentActivate env e d =
     Inr (Undefined,
          if \<not> contains n (target e) \<and> \<not> contains m (target e)
          then modify_classList (removeAll ''active'') n d else d)"
  by (simp add: onDocumentActivate_def classList_remove_def validate_active)

lemma marker_toggled:
  "nav env = Some n \<Longrightarrow>
   marker env (modify_classList (toggle_token ''active'') n d) =
     (element_at d n \<noteq> None \<and> \<not> marker env d)"
  by (simp add: marker_def classList_contains_modify)
    (auto simp add: classList_contains_def toggle_token_def split: option.splits)

lemma marker_removed:
  "nav env = Some n \<Longrightarrow> \<not> marker env (modify_classList (removeAll ''active'') n d)"
  by (simp add: marker_def classList_contains_modify split: option.splits)

lemma remove_absent:
  "nav env = Some n \<Longrightarrow> \<not> marker env d \<Longrightarrow> modify_classList (removeAll ''active'') n d = d"
proof (induction n arbitrary: d env)
  case Nil
  then show ?case by (cases d) (simp add: marker_def classList_contains_def)
next
  case (Cons k n)
  show ?case
  proof (cases d)
    case (Element l i c ch)
    show ?thesis
    proof (cases "k < length ch")
      case True
      have "\<not> marker (env\<lparr>nav := Some n\<rparr>) (ch ! k)"
        using Cons.prems True Element by (simp add: marker_def classList_contains_def)
      then have "modify_classList (removeAll ''active'') n (ch ! k) = ch ! k"
        using Cons.IH [of "env\<lparr>nav := Some n\<rparr>" "ch ! k"] by simp
      then show ?thesis using Element True by simp
    next
      case False
      then show ?thesis using Element by simp
    qed
  qed
qed

lemma resolved_modify:
  "resolved env (modify_classList f n d) = resolved env d"
  by (simp add: resolved_def element_at_modify_None split: option.splits)

lemma contains_refl: "contains a a"
  by (induction a) simp_all

lemma click_result:
  assumes "menuIcon env = Some m" "nav env = Some n"
  shows "click env t d =
           (if contains m t then modify_classList (toggle_token ''active'') n d
            else if contains n t then d
            else modify_classList (removeAll ''active'') n d)"
  by (simp add: click_def Let_def assms after_listener_def
      onIconActivate_result [OF assms(2)] onDocumentActivate_result [OF assms(2) assms(1)])

lemma click_marker:
  assumes "resolved env d"
  shows "marker env (click env t d) =
           (if in_icon env t then \<not> marker env d
            else if in_nav env t then marker env d else False)"
proof -
  from assms obtain m n where mn: "menuIcon env = Some m" "nav env = Some n"
    and valid: "element_at d n \<noteq> None"
    by (auto simp add: resolved_def split: option.splits)
  show ?thesis
    using valid
    by (simp add: click_result [OF mn] in_icon_def in_nav_def mn
        marker_toggled [OF mn(2)] marker_removed [OF mn(2)])
qed

lemma click_resolved:
  assumes "resolved env d"
  shows "resolved env (click env t d)"
proof -
  from assms obtain m n where mn: "menuIcon env = Some m" "nav env = Some n"
    by (auto simp add: resolved_def split: option.splits)
  show ?thesis using assms by (simp add: click_result [OF mn] resolved_modify)
qed

lemma state_of_click:
  "resolved env d \<Longrightarrow>
   state_of env (click env t d) = spec_transition (state_of env d) (activation_of env t)"
  by (simp add: state_of_def activation_of_def click_marker)

lemma state_of_clicks:
  "resolved env d \<Longrightarrow>
   state_of env (clicks env ts d) = foldl spec_transition (state_of env d) (map (activation_of env) ts)"
proof (induction ts arbitrary: d)
  case Nil
  show ?case by simp
next
  case (Cons t ts)
  then show ?case by (simp add: state_of_click click_resolved)
qed

section \<open>Facts about the state machine\<close>

lemma spec_machine_snoc:
  "spec_machine (as @ [a]) = spec_transition (spec_machine as) a"
  by (simp add: spec_machine_def)

lemma opened_at_snoc:
  "k < length as \<Longrightarrow> opened_at (as @ [a]) k = opened_at as k"
  "opened_at (as @ [a]) (length as) = (a = IconActivation \<and> spec_machine as = CLOSED)"
  by (simp_all add: opened_at_def nth_append)

lemma later_snoc:
  "k < length as \<Longrightarrow> {Suc k..<Suc (length as)} = insert (length as) {Suc k..<length as}"
  by auto

lemma opened_and_not_closed_snoc:
  "opened_and_not_closed (as @ [a]) =
     ((a = IconActivation \<and> spec_machine as = CLOSED) \<or>
      (a = InsideActivation \<and> opened_and_not_closed as))"
proof -
  have old: "\<And>k. k < length as \<Longrightarrow>
      (opened_at (as @ [a]) k \<and>
        (\<forall>j \<in> {Suc k..<length (as @ [a])}. \<not> opened_at (as @ [a]) j) \<and>
        OutsideActivation \<notin> set (drop (Suc k) (as @ [a])) \<and>
        IconActivation \<notin> set (drop (Suc k) (as @ [a]))) =
      (a = InsideActivation \<and> opened_at as k \<and>
        (\<forall>j \<in> {Suc k..<length as}. \<not> opened_at as j) \<and>
        OutsideActivation \<notin> set (drop (Suc k) as) \<and>
        IconActivation \<notin> set (drop (Suc k) as))"
  proof -
    fix k assume k: "k < length as"
    have "(\<forall>j \<in> {Suc k..<length (as @ [a])}. \<not> opened_at (as @ [a]) j) =
          ((\<forall>j \<in> {Suc k..<length as}. \<not> opened_at as j) \<and>
           \<not> (a = IconActivation \<and> spec_machine as = CLOSED))"
      using k by (auto simp add: later_snoc opened_at_snoc)
    then show "?thesis k" using k
      by (cases a) (auto simp add: opened_at_snoc)
  qed
  have new: "(opened_at (as @ [a]) (length as) \<and>
        (\<forall>j \<in> {Suc (length as)..<length (as @ [a])}. \<not> opened_at (as @ [a]) j) \<and>
        OutsideActivation \<notin> set (drop (Suc (length as)) (as @ [a])) \<and>
        IconActivation \<notin> set (drop (Suc (length as)) (as @ [a]))) =
      (a = IconActivation \<and> spec_machine as = CLOSED)"
    by (simp add: opened_at_snoc)
  show ?thesis
    unfolding opened_and_not_closed_def [of "as @ [a]"]
    apply (simp only: length_append_singleton atLeast0_lessThan_Suc bex_simps)
    apply (simp only: new [simplified])
    using old apply (auto simp add: opened_and_not_closed_def)
    done
qed

lemma machine_open_iff:
  "(spec_machine as = OPEN) = opened_and_not_closed as"
proof (induction as rule: rev_induct)
  case Nil
  show ?case by (simp add: spec_machine_def opened_and_not_closed_def)
next
  case (snoc a as)
  show ?case
    unfolding opened_and_not_closed_snoc spec_machine_snoc snoc.IH [symmetric]
    by (cases a; cases "spec_machine as") simp_all
qed

section \<open>Loading the script\<close>

text \<open>The addresses that the lookups return are addresses of elements of the page.\<close>

lemma first_match_valid:
  "first_match P d = Some p \<Longrightarrow> element_at d p \<noteq> None"
  "first_among P es k = Some q \<Longrightarrow>
     \<exists>j p. q = (k + j) # p \<and> j < length es \<and> element_at (es ! j) p \<noteq> None"
proof (induction P d and P es k arbitrary: p and q rule: first_match_first_among.induct)
  case (1 P l i c ch)
  then show ?case by (fastforce split: if_splits)
next
  case (2 P k)
  then show ?case by simp
next
  case (3 P e es k)
  show ?case
  proof (cases "first_match P e")
    case None
    with 3 obtain j p where "q = (Suc k + j) # p" "j < length es"
      "element_at (es ! j) p \<noteq> None"
      by fastforce
    then have "q = (k + Suc j) # p \<and> Suc j < length (e # es) \<and>
        element_at ((e # es) ! Suc j) p \<noteq> None"
      by simp
    then show ?thesis by blast
  next
    case (Some p)
    with 3 have "q = (k + 0) # p \<and> 0 < length (e # es) \<and>
        element_at ((e # es) ! 0) p \<noteq> None"
      by simp
    then show ?thesis by blast
  qed
qed

lemma load_resolved:
  assumes "load doc = Inr env" "nav env \<noteq> None"
  shows "resolved env doc"
proof -
  from assms(1) have env: "env = lookups doc" and "menuIcon (lookups doc) \<noteq> None"
    by (auto simp add: load_def Let_def split: option.splits)
  then obtain m where m: "getElementById doc ''menu-icon'' = Some m"
    by (auto simp add: lookups_def)
  from assms(2) env obtain n where n: "querySelector doc ''nav'' = Some n"
    by (auto simp add: lookups_def)
  have "element_at doc m \<noteq> None" "element_at doc n \<noteq> None"
    using m n first_match_valid(1) by (simp_all add: getElementById_def querySelector_def)
  then show ?thesis by (simp add: resolved_def env lookups_def m n)
qed

lemma load_page: "load page = Inr page_env"
  by code_simp

lemma load_page_one_element: "load page_one_element = Inr page_one_element_env"
  by code_simp

lemma load_page_no_nav: "load page_no_nav = Inr page_no_nav_env"
  by code_simp

lemma load_page_no_icon: "load page_no_icon = Inl TypeError"
  by code_simp

lemma resolved_page: "resolved page_env page"
  using load_resolved [OF load_page] by (simp add: page_env_def)

section \<open>Repeated icon activations\<close>

lemma icon_clicks_parity:
  "resolved env doc \<Longrightarrow> list_all (in_icon env) ts \<Longrightarrow>
   marker env (clicks env ts doc) = (marker env doc \<noteq> odd (length ts))"
proof (induction ts arbitrary: doc)
  case Nil
  show ?case by simp
next
  case (Cons t ts)
  then show ?case by (simp add: click_marker click_resolved) blast
qed

lemma icon_activations_parity:
  "nav env = Some n \<Longrightarrow> element_at doc n \<noteq> None \<Longrightarrow>
   \<exists>doc'. icon_activations env N doc = Inr doc' \<and>
          marker env doc' = (marker env doc \<noteq> odd N)"
proof (induction N arbitrary: doc)
  case 0
  show ?case by simp
next
  case (Suc N)
  let ?d = "modify_classList (toggle_token ''active'') n doc"
  have "element_at ?d n \<noteq> None" using Suc.prems by (simp add: element_at_modify_None)
  from Suc.IH [OF Suc.prems(1) this] show ?case
    using Suc.prems by (auto simp add: onIconActivate_result marker_toggled)
qed

section \<open>What a listener leaves as it is\<close>

lemma own_but_marker_modify:
  assumes "\<And>c. removeAll ''active'' (f c) = removeAll ''active'' c"
  shows "map_option own_but_marker (element_at (modify_classList f n d) p) =
         map_option own_but_marker (element_at d p)"
proof -
  have eq: "own_but_marker = (\<lambda>(l, i, c, k). (l, i, removeAll ''active'' c, k)) \<circ> own"
    by (rule ext) (simp add: own_but_marker_def own_def)
  have "map_option own_but_marker (element_at (modify_classList f n d) p) =
        map_option (\<lambda>(l, i, c, k). (l, i, removeAll ''active'' c, k))
          (map_option own (element_at (modify_classList f n d) p))"
    by (simp add: eq option.map_comp)
  also have "\<dots> = map_option (\<lambda>(l, i, c, k). (l, i, removeAll ''active'' c, k))
          (map_option own (element_at d p))"
    unfolding own_modify by (cases "element_at d p") (simp_all add: split_def assms)
  also have "\<dots> = map_option own_but_marker (element_at d p)"
    by (simp add: eq option.map_comp)
  finally show ?thesis .
qed

lemma own_modify_other:
  "p \<noteq> n \<Longrightarrow>
   map_option own (element_at (modify_classList f n d) p) = map_option own (element_at d p)"
  unfolding own_modify by (cases "element_at d p") (simp_all add: split_def)

lemma toggle_token_others:
  "removeAll ''active'' (toggle_token ''active'' c) = removeAll ''active'' c"
  by (simp add: toggle_token_def)

section \<open>The claims\<close>

text \<open>
  C1. Whatever the token list of the navigation element holds, the icon listener
  (\<open>onIconActivate\<close>) flips the marker: present, it is removed; absent, it is added. The
  listener returns \<^verbatim>\<open>undefined\<close> and does not throw. ``The navigation element'' is
  the element that \<^verbatim>\<open>nav\<close> refers to, so \<^verbatim>\<open>nav\<close> is an element of the page here.
\<close>

theorem onIconActivate_flips_marker:
  assumes "nav env = Some n" "element_at doc n \<noteq> None"
  shows "\<exists>doc'. onIconActivate env doc = Inr (Undefined, doc') \<and>
           marker env doc' = (\<not> marker env doc)"
  using assms by (simp add: onIconActivate_result marker_toggled)

theorem onIconActivate_flips_marker_witness:
  "nav page_env = Some [1] \<and> element_at page [1] \<noteq> None \<and> \<not> marker page_env page \<and>
   (\<exists>doc'. onIconActivate page_env page = Inr (Undefined, doc') \<and>
      marker page_env doc' = (\<not> marker page_env page)) \<and>
   marker page_env page_open \<and>
   (\<exists>doc'. onIconActivate page_env page_open = Inr (Undefined, doc') \<and>
      marker page_env doc' = (\<not> marker page_env page_open))"
proof -
  have n: "nav page_env = Some [1]" by (simp add: page_env_def)
  have a: "element_at page [1] \<noteq> None" by (simp add: page_def)
  have b: "element_at page_open [1] \<noteq> None" by (simp add: page_open_def)
  have c: "\<not> marker page_env page" by code_simp
  have d: "marker page_env page_open" by code_simp
  show ?thesis
    using n a c d onIconActivate_flips_marker [OF n a] onIconActivate_flips_marker [OF n b]
    by blast
qed

text \<open>
  C2. The document listener (\<open>onDocumentActivate\<close>) removes the marker exactly when the
  target of the event is neither inside the navigation element nor inside the icon
  element: the page after it is then the page before it with the token \<^verbatim>\<open>active\<close>
  taken out of the token list of the navigation element, and the marker is absent. For
  every other target it leaves the whole page as it is. It returns \<^verbatim>\<open>undefined\<close> in
  both cases.
\<close>

theorem onDocumentActivate_removes_outside:
  assumes "menuIcon env = Some m" "nav env = Some n"
  shows "\<exists>doc'. onDocumentActivate env e doc = Inr (Undefined, doc') \<and>
           (if contains n (target e) \<or> contains m (target e)
            then doc' = doc
            else doc' = modify_classList (removeAll ''active'') n doc \<and>
                 element_at doc' n =
                   map_option
                     (\<lambda>x. Element (localName x) (ident x)
                            (removeAll ''active'' (classList x)) (children x))
                     (element_at doc n) \<and>
                 \<not> marker env doc')"
  using assms
  by (simp add: onDocumentActivate_result marker_removed element_at_modify_same)

theorem onDocumentActivate_removes_outside_witness:
  "menuIcon page_env = Some [0] \<and> nav page_env = Some [1] \<and>
   \<not> contains [1] [2] \<and> \<not> contains [0] [2] \<and>
   onDocumentActivate page_env \<lparr>target = [2]\<rparr> page_open = Inr (Undefined, page) \<and>
   page = modify_classList (removeAll ''active'') [1] page_open \<and>
   \<not> marker page_env page \<and> marker page_env page_open \<and>
   contains [1] [1, 0] \<and>
   onDocumentActivate page_env \<lparr>target = [1, 0]\<rparr> page_open = Inr (Undefined, page_open)"
proof -
  have m: "menuIcon page_env = Some [0]" and n: "nav page_env = Some [1]"
    by (simp_all add: page_env_def)
  have c: "\<not> contains [1] [2]" "\<not> contains [0] [2]" "contains [1] [1, 0]" by simp_all
  have p: "page = modify_classList (removeAll ''active'') [1] page_open" by code_simp
  have o: "marker page_env page_open" by code_simp
  note t1 = onDocumentActivate_removes_outside [OF m n, of "\<lparr>target = [2]\<rparr>" page_open]
  note t2 = onDocumentActivate_removes_outside [OF m n, of "\<lparr>target = [1, 0]\<rparr>" page_open]
  have r1: "onDocumentActivate page_env \<lparr>target = [2]\<rparr> page_open = Inr (Undefined, page) \<and>
      \<not> marker page_env page"
    using t1 c p by auto
  have r2: "onDocumentActivate page_env \<lparr>target = [1, 0]\<rparr> page_open =
      Inr (Undefined, page_open)"
    using t2 c by auto
  from m n c p o r1 r2 show ?thesis by simp
qed

text \<open>
  C3, as it is written, says two things of a run of clicks from the CLOSED state: that the
  marker follows the two-state machine, and that ``equivalently'' the marker is present
  exactly when the menu was last opened by an icon click and not yet dismissed by an
  outside click. The second fails: two clicks on the icon open the menu and close it
  again, with no outside click at all.
\<close>

theorem invariant_counterexample:
  "load page = Inr page_env \<and> \<not> marker page_env page \<and>
   activation_of page_env [0] = IconActivation \<and>
   opened_and_not_dismissed (map (activation_of page_env) [[0], [0]]) \<and>
   \<not> marker page_env (clicks page_env [[0], [0]] page)"
  by code_simp

text \<open>
  C3, amended. From the CLOSED state, after every finite sequence of clicks the marker is
  in the state that the two-state machine reaches (icon activation toggles, outside
  activation closes, any other click changes nothing); equivalently, the marker is
  present exactly when the menu was last opened by an icon click and since then neither
  closed by another icon click nor dismissed by an outside click.
\<close>

theorem clicks_refine_machine:
  assumes "resolved env doc" "\<not> marker env doc"
  shows "state_of env (clicks env ts doc) = spec_machine (map (activation_of env) ts) \<and>
         marker env (clicks env ts doc) = opened_and_not_closed (map (activation_of env) ts)"
proof -
  have "state_of env (clicks env ts doc) = spec_machine (map (activation_of env) ts)"
    using state_of_clicks [OF assms(1), of ts] assms(2)
    by (simp add: spec_machine_def state_of_def)
  moreover from this
  have "marker env (clicks env ts doc) = opened_and_not_closed (map (activation_of env) ts)"
    unfolding machine_open_iff [symmetric] by (simp add: state_of_def split: if_splits)
  ultimately show ?thesis by simp
qed

theorem clicks_refine_machine_witness:
  "resolved page_env page \<and> \<not> marker page_env page \<and>
   state_of page_env (clicks page_env [[0], [1, 0], [0], [0], [2], [0]] page) =
     spec_machine (map (activation_of page_env) [[0], [1, 0], [0], [0], [2], [0]]) \<and>
   marker page_env (clicks page_env [[0], [1, 0], [0], [0], [2], [0]] page) =
     opened_and_not_closed (map (activation_of page_env) [[0], [1, 0], [0], [0], [2], [0]]) \<and>
   marker page_env (clicks page_env [[0], [1, 0], [0], [0], [2], [0]] page)"
proof -
  have r: "resolved page_env page" by (rule resolved_page)
  have c: "\<not> marker page_env page" by code_simp
  have o: "marker page_env (clicks page_env [[0], [1, 0], [0], [0], [2], [0]] page)"
    by code_simp
  show ?thesis
    using r c o clicks_refine_machine [OF r c, of "[[0], [1, 0], [0], [0], [2], [0]]"]
    by blast
qed

text \<open>
  C4. From the CLOSED state, after \<open>N\<close> icon activations and nothing else the marker is
  present exactly when \<open>N\<close> is odd. This holds of \<open>N\<close> clicks through the icon, where the
  document listener runs after the icon listener each time, and of the icon listener run
  \<open>N\<close> times by itself.
\<close>

theorem icon_activations_odd:
  assumes "resolved env doc" "\<not> marker env doc" "list_all (in_icon env) ts"
  shows "marker env (clicks env ts doc) = odd (length ts) \<and>
         (\<exists>doc'. icon_activations env N doc = Inr doc' \<and> marker env doc' = odd N)"
proof -
  from assms(1) obtain n where "nav env = Some n" "element_at doc n \<noteq> None"
    by (auto simp add: resolved_def split: option.splits)
  from icon_activations_parity [OF this, of N] icon_clicks_parity [OF assms(1) assms(3)] assms(2)
  show ?thesis by simp
qed

theorem icon_activations_odd_witness:
  "resolved page_env page \<and> \<not> marker page_env page \<and>
   list_all (in_icon page_env) [[0], [0], [0]] \<and>
   marker page_env (clicks page_env [[0], [0], [0]] page) = odd (length [[0], [0], [0 :: nat]]) \<and>
   (\<exists>doc'. icon_activations page_env 3 page = Inr doc' \<and> marker page_env doc' = odd (3 :: nat))"
proof -
  have r: "resolved page_env page" by (rule resolved_page)
  have c: "\<not> marker page_env page" by code_simp
  have i: "list_all (in_icon page_env) [[0], [0], [0]]" by code_simp
  show ?thesis
    using r c i icon_activations_odd [OF r c i, of 3] by blast
qed

text \<open>
  C5. A click on the icon element itself toggles the marker although both listeners run:
  the icon listener toggles, and the document listener, finding its target inside the
  icon element, changes nothing. So from OPEN a click on the icon gives CLOSED.
\<close>

theorem icon_click_toggles:
  assumes "resolved env doc" "menuIcon env = Some m"
  shows "\<exists>doc1. onIconActivate env doc = Inr (Undefined, doc1) \<and>
           onDocumentActivate env \<lparr>target = m\<rparr> doc1 = Inr (Undefined, doc1) \<and>
           click env m doc = doc1 \<and>
           marker env doc1 = (\<not> marker env doc)"
proof -
  from assms obtain n where n: "nav env = Some n" "element_at doc n \<noteq> None"
    by (auto simp add: resolved_def split: option.splits)
  show ?thesis
    using n
    by (simp add: onIconActivate_result [OF n(1)] onDocumentActivate_result [OF n(1) assms(2)]
        click_result [OF assms(2) n(1)] contains_refl marker_toggled)
qed

theorem icon_click_toggles_witness:
  "resolved page_env page_open \<and> menuIcon page_env = Some [0] \<and>
   (\<exists>doc1. onIconActivate page_env page_open = Inr (Undefined, doc1) \<and>
      onDocumentActivate page_env \<lparr>target = [0]\<rparr> doc1 = Inr (Undefined, doc1) \<and>
      click page_env [0] page_open = doc1 \<and>
      marker page_env doc1 = (\<not> marker page_env page_open)) \<and>
   marker page_env page_open \<and> click page_env [0] page_open = page"
proof -
  have r: "resolved page_env page_open" by code_simp
  have m: "menuIcon page_env = Some [0]" by (simp add: page_env_def)
  have o: "marker page_env page_open" by code_simp
  have c: "click page_env [0] page_open = page" by code_simp
  show ?thesis using r m o c icon_click_toggles [OF r m] by blast
qed

text \<open>
  C6. For a target outside both the navigation element and the icon element, the document
  listener does nothing to a CLOSED menu: the page after it is the page before it, the
  marker is still absent, and running the listener a second time with the same event
  gives the state that running it once gives.
\<close>

theorem outside_click_on_closed_is_noop:
  assumes "menuIcon env = Some m" "nav env = Some n"
    and "\<not> contains n (target e)" "\<not> contains m (target e)"
    and "\<not> marker env doc"
  shows "onDocumentActivate env e doc = Inr (Undefined, doc) \<and>
         \<not> marker env (after_listener (onDocumentActivate env e doc) doc) \<and>
         after_listener
           (onDocumentActivate env e (after_listener (onDocumentActivate env e doc) doc))
           (after_listener (onDocumentActivate env e doc) doc) =
         after_listener (onDocumentActivate env e doc) doc"
  using assms
  by (simp add: onDocumentActivate_result [OF assms(2) assms(1)] remove_absent [OF assms(2)]
      after_listener_def)

theorem outside_click_on_closed_is_noop_witness:
  "menuIcon page_env = Some [0] \<and> nav page_env = Some [1] \<and>
   \<not> contains [1] (target \<lparr>target = [2]\<rparr>) \<and> \<not> contains [0] (target \<lparr>target = [2]\<rparr>) \<and>
   \<not> marker page_env page \<and>
   onDocumentActivate page_env \<lparr>target = [2]\<rparr> page = Inr (Undefined, page) \<and>
   \<not> marker page_env (after_listener (onDocumentActivate page_env \<lparr>target = [2]\<rparr> page) page) \<and>
   after_listener
     (onDocumentActivate page_env \<lparr>target = [2]\<rparr>
        (after_listener (onDocumentActivate page_env \<lparr>target = [2]\<rparr> page) page))
     (after_listener (onDocumentActivate page_env \<lparr>target = [2]\<rparr> page) page) =
   after_listener (onDocumentActivate page_env \<lparr>target = [2]\<rparr> page) page"
proof -
  have m: "menuIcon page_env = Some [0]" and n: "nav page_env = Some [1]"
    by (simp_all add: page_env_def)
  have c: "\<not> contains [1] (target \<lparr>target = [2]\<rparr>)" "\<not> contains [0] (target \<lparr>target = [2]\<rparr>)"
    by simp_all
  have a: "\<not> marker page_env page" by code_simp
  show ?thesis
    using m n c a outside_click_on_closed_is_noop [OF m n c a] by blast
qed

text \<open>
  C7. When both lookups gave an element, neither listener throws, whatever the page and
  the event. A listener throws only when a lookup gave \<^verbatim>\<open>null\<close>, and loading the
  script throws only when there is no element with the id of the icon. Nothing catches
  these: with \<^verbatim>\<open>nav\<close> \<^verbatim>\<open>null\<close> each call of the icon listener ends in a
  TypeError, and so does each call of the document listener; with no icon element the
  load ends in a TypeError.
\<close>

theorem handlers_fail_only_on_missing_element:
  "(menuIcon env \<noteq> None \<and> nav env \<noteq> None \<longrightarrow>
      \<not> isl (onIconActivate env doc) \<and> \<not> isl (onDocumentActivate env e doc)) \<and>
   (isl (onIconActivate env doc) \<longrightarrow> nav env = None) \<and>
   (isl (onDocumentActivate env e doc) \<longrightarrow> nav env = None \<or> menuIcon env = None) \<and>
   (isl (load doc) \<longrightarrow> getElementById doc ''menu-icon'' = None) \<and>
   (nav env = None \<longrightarrow>
      onIconActivate env doc = Inl TypeError \<and> onDocumentActivate env e doc = Inl TypeError) \<and>
   (getElementById doc ''menu-icon'' = None \<longrightarrow> load doc = Inl TypeError)"
proof -
  have icon: "isl (onIconActivate env doc) = (nav env = None)"
    by (cases "nav env") (simp_all add: onIconActivate_result, simp add: onIconActivate_def)
  have document: "isl (onDocumentActivate env e doc) \<longrightarrow> nav env = None \<or> menuIcon env = None"
    by (cases "nav env"; cases "menuIcon env") (simp_all add: onDocumentActivate_result)
  have loading: "isl (load doc) = (getElementById doc ''menu-icon'' = None)"
    by (simp add: load_def lookups_def Let_def split: option.splits)
  have c1: "menuIcon env \<noteq> None \<and> nav env \<noteq> None \<longrightarrow>
      \<not> isl (onIconActivate env doc) \<and> \<not> isl (onDocumentActivate env e doc)"
    by (cases "nav env"; cases "menuIcon env")
      (simp_all add: onIconActivate_result onDocumentActivate_result)
  have c2: "isl (onIconActivate env doc) \<longrightarrow> nav env = None"
    using icon by simp
  have c4: "isl (load doc) \<longrightarrow> getElementById doc ''menu-icon'' = None"
    using loading by simp
  have c5: "nav env = None \<longrightarrow>
      onIconActivate env doc = Inl TypeError \<and> onDocumentActivate env e doc = Inl TypeError"
    by (simp add: onIconActivate_def onDocumentActivate_def)
  have c6: "getElementById doc ''menu-icon'' = None \<longrightarrow> load doc = Inl TypeError"
    by (simp add: load_def lookups_def)
  from c1 c2 document c4 c5 c6 show ?thesis by (intro conjI)
qed

theorem handlers_fail_only_on_missing_element_witness:
  "menuIcon page_env \<noteq> None \<and> nav page_env \<noteq> None \<and>
   \<not> isl (onIconActivate page_env page) \<and>
   \<not> isl (onDocumentActivate page_env \<lparr>target = [2]\<rparr> page) \<and>
   nav page_no_nav_env = None \<and>
   isl (onIconActivate page_no_nav_env page_no_nav) \<and>
   isl (onDocumentActivate page_no_nav_env \<lparr>target = []\<rparr> page_no_nav) \<and>
   onIconActivate page_no_nav_env page_no_nav = Inl TypeError \<and>
   onDocumentActivate page_no_nav_env \<lparr>target = []\<rparr> page_no_nav = Inl TypeError \<and>
   getElementById page_no_icon ''menu-icon'' = None \<and>
   isl (load page_no_icon) \<and> load page_no_icon = Inl TypeError"
proof -
  have a: "menuIcon page_env \<noteq> None \<and> nav page_env \<noteq> None" by (simp add: page_env_def)
  have b: "nav page_no_nav_env = None" by (simp add: page_no_nav_env_def)
  have c: "getElementById page_no_icon ''menu-icon'' = None" by code_simp
  have d: "isl (onIconActivate page_no_nav_env page_no_nav)"
    "isl (onDocumentActivate page_no_nav_env \<lparr>target = []\<rparr> page_no_nav)"
    "isl (load page_no_icon)"
    by code_simp+
  note t1 = handlers_fail_only_on_missing_element [of page_env page "\<lparr>target = [2]\<rparr>"]
  note t2 = handlers_fail_only_on_missing_element
    [of page_no_nav_env page_no_nav "\<lparr>target = []\<rparr>"]
  note t3 = handlers_fail_only_on_missing_element
    [of page_no_nav_env page_no_icon "\<lparr>target = []\<rparr>"]
  have e: "\<not> isl (onIconActivate page_env page) \<and>
      \<not> isl (onDocumentActivate page_env \<lparr>target = [2]\<rparr> page)"
    using t1 a by simp
  have f: "onIconActivate page_no_nav_env page_no_nav = Inl TypeError \<and>
      onDocumentActivate page_no_nav_env \<lparr>target = []\<rparr> page_no_nav = Inl TypeError"
    using t2 b by simp
  have g: "load page_no_icon = Inl TypeError"
    using t3 c by simp
  from a b c d e f g show ?thesis by simp
qed

text \<open>
  C8. Both listeners are deterministic in the marker and the containment of the target:
  two runs, on any two pages, that start with the same marker state and whose targets
  are inside or outside the navigation element alike, and inside or outside the icon
  element alike, end with the same marker state.
\<close>

theorem handlers_deterministic:
  assumes "resolved env1 doc1" "resolved env2 doc2"
    and "marker env1 doc1 = marker env2 doc2"
    and "in_nav env1 (target e1) = in_nav env2 (target e2)"
    and "in_icon env1 (target e1) = in_icon env2 (target e2)"
  shows "marker_after env1 (onIconActivate env1 doc1) =
           marker_after env2 (onIconActivate env2 doc2) \<and>
         marker_after env1 (onDocumentActivate env1 e1 doc1) =
           marker_after env2 (onDocumentActivate env2 e2 doc2) \<and>
         marker_after env1 (onIconActivate env1 doc1) \<noteq> None \<and>
         marker_after env1 (onDocumentActivate env1 e1 doc1) \<noteq> None"
proof -
  have icon: "marker_after env (onIconActivate env doc) = Some (\<not> marker env doc)"
    if "resolved env doc" for env doc
  proof -
    from that obtain n where "nav env = Some n" "element_at doc n \<noteq> None"
      by (auto simp add: resolved_def split: option.splits)
    then show ?thesis by (simp add: marker_after_def onIconActivate_result marker_toggled)
  qed
  have document: "marker_after env (onDocumentActivate env e doc) =
      Some (marker env doc \<and> (in_nav env (target e) \<or> in_icon env (target e)))"
    if "resolved env doc" for env e doc
  proof -
    from that obtain m n where "menuIcon env = Some m" "nav env = Some n"
      by (auto simp add: resolved_def split: option.splits)
    then show ?thesis
      by (simp add: marker_after_def onDocumentActivate_result marker_removed
          in_nav_def in_icon_def)
  qed
  show ?thesis using assms by (simp add: icon document)
qed

theorem handlers_deterministic_witness:
  "resolved page_env page_open \<and> resolved page_one_element_env page_one_element_open \<and>
   marker page_env page_open = marker page_one_element_env page_one_element_open \<and>
   in_nav page_env (target \<lparr>target = [2]\<rparr>) =
     in_nav page_one_element_env (target \<lparr>target = []\<rparr>) \<and>
   in_icon page_env (target \<lparr>target = [2]\<rparr>) =
     in_icon page_one_element_env (target \<lparr>target = []\<rparr>) \<and>
   marker_after page_env (onIconActivate page_env page_open) =
     marker_after page_one_element_env
       (onIconActivate page_one_element_env page_one_element_open) \<and>
   marker_after page_env (onDocumentActivate page_env \<lparr>target = [2]\<rparr> page_open) =
     marker_after page_one_element_env
       (onDocumentActivate page_one_element_env \<lparr>target = []\<rparr> page_one_element_open) \<and>
   marker_after page_env (onIconActivate page_env page_open) \<noteq> None \<and>
   marker_after page_env (onDocumentActivate page_env \<lparr>target = [2]\<rparr> page_open) \<noteq> None"
proof -
  have r1: "resolved page_env page_open" by code_simp
  have r2: "resolved page_one_element_env page_one_element_open" by code_simp
  have mk: "marker page_env page_open = marker page_one_element_env page_one_element_open"
    by code_simp
  have c1: "in_nav page_env (target \<lparr>target = [2]\<rparr>) =
     in_nav page_one_element_env (target \<lparr>target = []\<rparr>)" by code_simp
  have c2: "in_icon page_env (target \<lparr>target = [2]\<rparr>) =
     in_icon page_one_element_env (target \<lparr>target = []\<rparr>)" by code_simp
  show ?thesis
    using r1 r2 mk c1 c2 handlers_deterministic [OF r1 r2 mk c1 c2] by blast
qed

text \<open>
  C9, as it is written, says that the listeners leave the icon element entirely as it is.
  On a page whose \<^verbatim>\<open>nav\<close> element carries the id \<^verbatim>\<open>menu-icon\<close> both lookups give the
  same element, and the icon listener changes the token list of the icon element.
\<close>

theorem icon_changed_counterexample:
  "load page_one_element = Inr page_one_element_env \<and>
   menuIcon page_one_element_env = Some [0] \<and>
   onIconActivate page_one_element_env page_one_element =
     Inr (Undefined, page_one_element_open) \<and>
   map_option own (element_at page_one_element_open [0]) \<noteq>
     map_option own (element_at page_one_element [0])"
  by code_simp

text \<open>
  C9, amended. Both listeners change nothing but the presence of the token \<^verbatim>\<open>active\<close>
  in the token list of the navigation element: the other tokens of that list stay, in
  their order, and so do the local name, the id and the number of children of the
  navigation element; every element \<open>p\<close> other than the navigation element keeps its
  local name, id, token list and number of children, and so does the icon element when
  it is not the navigation element itself. The first part holds also on a page where
  the icon element is the navigation element.
\<close>

theorem handlers_change_marker_only:
  assumes "menuIcon env = Some m" "nav env = Some n"
    and "r = onIconActivate env doc \<or> r = onDocumentActivate env e doc"
  shows "\<exists>doc'. r = Inr (Undefined, doc') \<and>
           map_option own_but_marker (element_at doc' n) =
             map_option own_but_marker (element_at doc n) \<and>
           (m \<noteq> n \<longrightarrow>
              map_option own (element_at doc' m) = map_option own (element_at doc m)) \<and>
           (p \<noteq> n \<longrightarrow>
              map_option own (element_at doc' p) = map_option own (element_at doc p))"
proof -
  let ?frame = "\<lambda>doc'.
      map_option own_but_marker (element_at doc' n) =
        map_option own_but_marker (element_at doc n) \<and>
      (m \<noteq> n \<longrightarrow>
         map_option own (element_at doc' m) = map_option own (element_at doc m)) \<and>
      (p \<noteq> n \<longrightarrow>
         map_option own (element_at doc' p) = map_option own (element_at doc p))"
  have toggled: "?frame (modify_classList (toggle_token ''active'') n doc)"
    by (simp add: own_but_marker_modify toggle_token_others own_modify_other)
  have removed: "?frame (modify_classList (removeAll ''active'') n doc)"
    by (simp add: own_but_marker_modify own_modify_other)
  have same: "?frame doc" by simp
  from assms(3) show ?thesis
  proof
    assume "r = onIconActivate env doc"
    then have "r = Inr (Undefined, modify_classList (toggle_token ''active'') n doc)"
      by (simp add: onIconActivate_result [OF assms(2)])
    with toggled show ?thesis by blast
  next
    assume "r = onDocumentActivate env e doc"
    then have r: "r = Inr (Undefined,
        if \<not> contains n (target e) \<and> \<not> contains m (target e)
        then modify_classList (removeAll ''active'') n doc else doc)"
      by (simp add: onDocumentActivate_result [OF assms(2) assms(1)])
    show ?thesis
    proof (cases "\<not> contains n (target e) \<and> \<not> contains m (target e)")
      case True
      with r have "r = Inr (Undefined, modify_classList (removeAll ''active'') n doc)" by simp
      with removed show ?thesis by blast
    next
      case False
      with r have "r = Inr (Undefined, doc)" by simp
      with same show ?thesis by blast
    qed
  qed
qed

theorem handlers_change_marker_only_witness:
  "menuIcon page_env = Some [0] \<and> nav page_env = Some [1] \<and> [0] \<noteq> [1 :: nat] \<and>
   [1, 0] \<noteq> [1 :: nat] \<and>
   (\<exists>doc'. onIconActivate page_env page = Inr (Undefined, doc') \<and>
      map_option own_but_marker (element_at doc' [1]) =
        map_option own_but_marker (element_at page [1]) \<and>
      map_option own (element_at doc' [0]) = map_option own (element_at page [0]) \<and>
      map_option own (element_at doc' [1, 0]) = map_option own (element_at page [1, 0])) \<and>
   (\<exists>doc'. onDocumentActivate page_env \<lparr>target = [2]\<rparr> page_open = Inr (Undefined, doc') \<and>
      map_option own_but_marker (element_at doc' [1]) =
        map_option own_but_marker (element_at page_open [1]) \<and>
      map_option own (element_at doc' [0]) = map_option own (element_at page_open [0]) \<and>
      map_option own (element_at doc' [1, 0]) =
        map_option own (element_at page_open [1, 0])) \<and>
   menuIcon page_one_element_env = Some [0] \<and> nav page_one_element_env = Some [0] \<and>
   [] \<noteq> [0 :: nat] \<and>
   (\<exists>doc'. onIconActivate page_one_element_env page_one_element = Inr (Undefined, doc') \<and>
      map_option own_but_marker (element_at doc' [0]) =
        map_option own_but_marker (element_at page_one_element [0]) \<and>
      map_option own (element_at doc' []) = map_option own (element_at page_one_element []))"
proof -
  have m: "menuIcon page_env = Some [0]" and n: "nav page_env = Some [1]"
    by (simp_all add: page_env_def)
  have m1: "menuIcon page_one_element_env = Some [0]"
    and n1: "nav page_one_element_env = Some [0]"
    by (simp_all add: page_one_element_env_def)
  have d: "[0] \<noteq> [1 :: nat]" and d': "[1, 0] \<noteq> [1 :: nat]" and d1: "[] \<noteq> [0 :: nat]"
    by simp_all
  note t1 = handlers_change_marker_only
    [OF m n, of "onIconActivate page_env page" page "\<lparr>target = [2]\<rparr>" "[1, 0]"]
  note t2 = handlers_change_marker_only
    [OF m n, of "onDocumentActivate page_env \<lparr>target = [2]\<rparr> page_open" page_open
      "\<lparr>target = [2]\<rparr>" "[1, 0]"]
  note t3 = handlers_change_marker_only
    [OF m1 n1, of "onIconActivate page_one_element_env page_one_element" page_one_element
      "\<lparr>target = [0]\<rparr>" "[]"]
  have a1: "\<exists>doc'. onIconActivate page_env page = Inr (Undefined, doc') \<and>
      map_option own_but_marker (element_at doc' [1]) =
        map_option own_but_marker (element_at page [1]) \<and>
      map_option own (element_at doc' [0]) = map_option own (element_at page [0]) \<and>
      map_option own (element_at doc' [1, 0]) = map_option own (element_at page [1, 0])"
    using t1 by simp
  have a2: "\<exists>doc'. onDocumentActivate page_env \<lparr>target = [2]\<rparr> page_open =
        Inr (Undefined, doc') \<and>
      map_option own_but_marker (element_at doc' [1]) =
        map_option own_but_marker (element_at page_open [1]) \<and>
      map_option own (element_at doc' [0]) = map_option own (element_at page_open [0]) \<and>
      map_option own (element_at doc' [1, 0]) =
        map_option own (element_at page_open [1, 0])"
    using t2 by simp
  have a3: "\<exists>doc'. onIconActivate page_one_element_env page_one_element =
        Inr (Undefined, doc') \<and>
      map_option own_but_marker (element_at doc' [0]) =
        map_option own_but_marker (element_at page_one_element [0]) \<and>
      map_option own (element_at doc' []) = map_option own (element_at page_one_element [])"
    using t3 by simp
  from m n d d' a1 a2 m1 n1 d1 a3 show ?thesis by (intro conjI)
qed

text \<open>
  C10. The document listener never adds the marker: when the marker is absent before it
  runs, the marker is absent after, for every event and every page. A click after which
  the marker is present where it was absent before went through the icon element, so
  that the icon listener ran.
\<close>

theorem document_listener_never_opens:
  assumes "\<not> marker env doc"
  shows "\<not> marker env (after_listener (onDocumentActivate env e doc) doc) \<and>
         (marker env (click env t doc) \<longrightarrow> in_icon env t)"
proof (cases "nav env")
  case None
  then show ?thesis by (simp add: marker_def)
next
  case n: (Some n)
  show ?thesis
  proof (cases "menuIcon env")
    case None
    then show ?thesis
      using assms n by (simp add: onDocumentActivate_def after_listener_def click_def)
  next
    case m: (Some m)
    show ?thesis
      using assms
      by (simp add: onDocumentActivate_result [OF n m] after_listener_def
          click_result [OF m n] marker_removed [OF n] in_icon_def m)
  qed
qed

theorem document_listener_never_opens_witness:
  "\<not> marker page_env page \<and>
   \<not> marker page_env
       (after_listener (onDocumentActivate page_env \<lparr>target = [2]\<rparr> page) page) \<and>
   marker page_env (click page_env [0] page) \<and> in_icon page_env [0]"
proof -
  have a: "\<not> marker page_env page" by code_simp
  have b: "marker page_env (click page_env [0] page)" by code_simp
  from a b document_listener_never_opens [OF a, of "\<lparr>target = [2]\<rparr>" "[0]"]
  show ?thesis by simp
qed

end
